theory Spec2Isabelle
  imports Complex_Main
begin

section \<open>Python dictionaries\<close>

text \<open>
  A Python \<^verbatim>\<open>dict\<close> keeps its keys in insertion order, and the code below reads that
  order (\<^verbatim>\<open>kwargs.items()\<close>, \<^verbatim>\<open>fn_kwargs.values()\<close>, \<^verbatim>\<open>fn_kwargs.keys()\<close>). A dictionary
  is therefore an association list whose keys are distinct, in insertion order.
\<close>

type_synonym 'v pydict = "(string \<times> 'v) list"

definition keys :: "'v pydict \<Rightarrow> string list" where
  "keys d = map fst d"

definition dict_values :: "'v pydict \<Rightarrow> 'v list" where
  "dict_values d = map snd d"

text \<open>\<^verbatim>\<open>d[k] = v\<close>: an existing key keeps its place, a new key goes to the end.\<close>

fun setitem :: "'v pydict \<Rightarrow> string \<Rightarrow> 'v \<Rightarrow> 'v pydict" where
  "setitem [] k v = [(k, v)]"
| "setitem ((k', v') # d) k v =
     (if k' = k then (k, v) # d else (k', v') # setitem d k v)"

text \<open>\<^verbatim>\<open>dict(pairs)\<close>: the pairs are stored one after the other.\<close>

definition dict :: "(string \<times> 'v) list \<Rightarrow> 'v pydict" where
  "dict kvs = fold (\<lambda>(k, v) d. setitem d k v) kvs []"

section \<open>The argument canonicalizer of \<^verbatim>\<open>make_traced\<close>\<close>

text \<open>
  \<^verbatim>\<open>inspect.signature(fn_unwrapped).parameters\<close> is an ordered mapping from the name of
  each declared parameter to its \<^verbatim>\<open>Parameter\<close>; the code reads the name and
  \<^verbatim>\<open>param.default\<close> only. A parameter is a pair of its name and its default, \<open>None\<close>
  standing for \<^verbatim>\<open>param.empty\<close>.
\<close>

type_synonym 'v parameters = "(string \<times> 'v option) list"

text \<open>
  \<^verbatim>\<open>
  fn_kwargs = {}
  for k, v in kwargs.items():
      fn_kwargs[k] = v
  \<close>
\<close>

definition copy_kwargs :: "'v pydict \<Rightarrow> 'v pydict" where
  "copy_kwargs kwargs = fold (\<lambda>(k, v) fn_kwargs. setitem fn_kwargs k v) kwargs []"

text \<open>
  \<^verbatim>\<open>
  for i, (name, param) in enumerate(sig.parameters.items()):
      if i < nargs:
          continue  # parameter is already set as positional
      if param.default is not param.empty and name not in fn_kwargs:
          fn_kwargs[name] = param.default
  \<close>
  The loop from index \<open>i\<close> on, over the parameters that are left.
\<close>

fun populate_defaults ::
  "nat \<Rightarrow> nat \<Rightarrow> 'v parameters \<Rightarrow> 'v pydict \<Rightarrow> 'v pydict" where
  "populate_defaults nargs i [] fn_kwargs = fn_kwargs"
| "populate_defaults nargs i ((name, dflt) # ps) fn_kwargs =
     (if i < nargs then populate_defaults nargs (Suc i) ps fn_kwargs
      else (case dflt of
              Some d \<Rightarrow>
                if name \<notin> set (keys fn_kwargs)
                then populate_defaults nargs (Suc i) ps (setitem fn_kwargs name d)
                else populate_defaults nargs (Suc i) ps fn_kwargs
            | None \<Rightarrow> populate_defaults nargs (Suc i) ps fn_kwargs))"

text \<open>The merged keyword dictionary \<^verbatim>\<open>fn_kwargs\<close> at line 130 of \<^verbatim>\<open>_traced\<close>.\<close>

definition merged_kwargs :: "'v parameters \<Rightarrow> 'v list \<Rightarrow> 'v pydict \<Rightarrow> 'v pydict" where
  "merged_kwargs params args kwargs =
     populate_defaults (length args) 0 params (copy_kwargs kwargs)"

text \<open>
  \<^verbatim>\<open>
  flat_fn_kwargs = list(fn_kwargs.values())
  all_args = list(args) + flat_fn_kwargs
  \<close>
\<close>

definition all_args :: "'v parameters \<Rightarrow> 'v list \<Rightarrow> 'v pydict \<Rightarrow> 'v list" where
  "all_args params args kwargs =
     args @ dict_values (merged_kwargs params args kwargs)"

text \<open>
  The adapter \<^verbatim>\<open>wrapped\<close>, closed over \<^verbatim>\<open>fn\<close>, \<^verbatim>\<open>nargs\<close> and \<^verbatim>\<open>fn_kwargs\<close>:
  \<^verbatim>\<open>
  def wrapped(*args):
      fn_args = args[:nargs]
      kwargs_keys = list(fn_kwargs.keys())
      kwargs = dict(zip(kwargs_keys, args[nargs:]))
      return fn(*fn_args, **kwargs)
  \<close>
  The traced function \<^verbatim>\<open>fn\<close> is a parameter: it receives the positional arguments and
  the keyword dictionary of the call.
\<close>

definition wrapped ::
  "('v list \<Rightarrow> 'v pydict \<Rightarrow> 'r) \<Rightarrow> nat \<Rightarrow> 'v pydict \<Rightarrow> 'v list \<Rightarrow> 'r" where
  "wrapped fn nargs fn_kwargs args =
     (let fn_args = take nargs args;
          kwargs_keys = keys fn_kwargs;
          kwargs = dict (zip kwargs_keys (drop nargs args))
      in fn fn_args kwargs)"

section \<open>Values, nested structures and errors\<close>

text \<open>
  \<^verbatim>\<open>Number\<close> of \<^verbatim>\<open>torch._prims.utils\<close> is the tuple of types \<^verbatim>\<open>(bool, int, float, complex)\<close>.
  A float is only carried around here, never computed with.
\<close>

datatype number = PyBool bool | PyInt int | PyFloat real | PyComplex real real

datatype dtype = torch_dtype string

datatype DataType = nvfuser_DataType string

text \<open>
  What the code reads of a \<^verbatim>\<open>torch.Tensor\<close>: \<^verbatim>\<open>size()\<close>, \<^verbatim>\<open>stride()\<close> and \<^verbatim>\<open>dtype\<close>;
  \<open>tensor_data\<close> names the buffer, so that two tensors of one shape differ.
\<close>

record tensor =
  tensor_size :: "int list"
  tensor_stride :: "int list"
  tensor_dtype :: dtype
  tensor_data :: nat

text \<open>
  The leaves of a Python value: a tensor, a number, a handle of the fusion backend
  (\<open>TensorView\<close> from \<^verbatim>\<open>define_tensor\<close> or from a lowering, \<open>Scalar\<close> from
  \<^verbatim>\<open>define_constant\<close>), or any other object.
\<close>

datatype leaf =
    Tensor tensor
  | Number number
  | TensorView nat
  | Scalar nat
  | Object string

text \<open>
  Nested structures as \<^verbatim>\<open>torch.utils._pytree\<close> sees them: a tuple, a list or a
  dictionary (its keys are the context of the node, its values the children) of
  further trees.
\<close>

datatype kind = TupleK | ListK | DictK "string list"

datatype 'a pytree = Leaf 'a | Node kind "'a pytree list"

datatype treespec = LeafSpec | TreeSpec kind "treespec list"

type_synonym val = "leaf pytree"

text \<open>
  The exceptions of the code. \<open>ValueError\<close> and \<open>RuntimeError\<close> are raised by
  \<^verbatim>\<open>execute\<close> itself (the specification calls them \<open>InvalidExecutorError\<close> and
  \<open>BackendUnavailableError\<close>); \<open>KeyError\<close> is a failed dtype translation;
  \<open>AttributeError\<close> is Python's error for an attribute that an object does not have,
  with the name of the attribute; \<open>TypeError\<close> is Python's error for a call that does
  not fit the callee; \<open>BackendError\<close> is whatever a lowering rule or the backend
  raises. The source raises no error of its own besides the first two.
\<close>

datatype error =
    ValueError string
  | RuntimeError string
  | KeyError string
  | AttributeError string
  | TypeError string
  | BackendError string

fun leaves :: "'a pytree \<Rightarrow> 'a list" where
  "leaves (Leaf x) = [x]"
| "leaves (Node k ts) = concat (map leaves ts)"

fun spec_of :: "'a pytree \<Rightarrow> treespec" where
  "spec_of (Leaf x) = LeafSpec"
| "spec_of (Node k ts) = TreeSpec k (map spec_of ts)"

text \<open>
  Modelled from the spec: \<^verbatim>\<open>tree_flatten\<close> and \<^verbatim>\<open>tree_unflatten\<close> of
  \<^verbatim>\<open>torch.utils._pytree\<close>, which the source imports: \<^verbatim>\<open>flatten(tree) -> (leaves, spec)\<close>
  and \<^verbatim>\<open>unflatten(leaves, spec) -> tree\<close>. Unflattening takes the leaves from left to
  right and fails when their number is not the one of the spec (so \<open>rebuild\<close> reads the
  head of a list of one leaf only).
\<close>

definition tree_flatten :: "'a pytree \<Rightarrow> 'a list \<times> treespec" where
  "tree_flatten t = (leaves t, spec_of t)"

fun num_leaves :: "treespec \<Rightarrow> nat" where
  "num_leaves LeafSpec = 1"
| "num_leaves (TreeSpec k ss) = sum_list (map num_leaves ss)"

fun rebuild :: "treespec \<Rightarrow> 'a list \<Rightarrow> 'a pytree"
  and rebuild_children :: "treespec list \<Rightarrow> 'a list \<Rightarrow> 'a pytree list" where
  "rebuild LeafSpec xs = Leaf (hd xs)"
| "rebuild (TreeSpec k ss) xs = Node k (rebuild_children ss xs)"
| "rebuild_children [] xs = []"
| "rebuild_children (s # ss) xs =
     rebuild s (take (num_leaves s) xs) # rebuild_children ss (drop (num_leaves s) xs)"

definition tree_unflatten :: "'a list \<Rightarrow> treespec \<Rightarrow> error + 'a pytree" where
  "tree_unflatten xs spec =
     (if length xs = num_leaves spec then Inr (rebuild spec xs)
      else Inl (ValueError ''tree_unflatten: wrong number of leaves''))"

section \<open>The fusion backend, as the calls made to it\<close>

text \<open>
  The backend (\<^verbatim>\<open>torch._C._nvfuser\<close>) is not part of the source. The state of one
  \<^verbatim>\<open>FusionDefinition\<close> is the list of the calls made to it so far, oldest first, kept
  also when a later step raises, so that what happened before a failure can be read.
  A handle returned by \<^verbatim>\<open>define_tensor\<close> or \<^verbatim>\<open>define_constant\<close> is the position of
  its defining call in that list. \<open>Forward\<close> records a replay of the graph by the
  direct executor.
\<close>

datatype event =
    Enter
  | DefineTensor "int list" "int list" DataType
  | DefineConstant number
  | AddInput leaf
  | Lower string "val list" "val pydict"
  | AddOutput leaf
  | Execute "val list"
  | Exit
  | Forward "val list" "val pydict"

type_synonym 'a fdm = "event list \<Rightarrow> (error + 'a) \<times> event list"

text \<open>Sequencing: an exception of the first step skips the second.\<close>

definition and_then :: "'a fdm \<Rightarrow> ('a \<Rightarrow> 'b fdm) \<Rightarrow> 'b fdm" where
  "and_then m f fd = (case m fd of (Inl e, fd') \<Rightarrow> (Inl e, fd') | (Inr x, fd') \<Rightarrow> f x fd')"

definition define_tensor :: "int list \<Rightarrow> int list \<Rightarrow> DataType \<Rightarrow> leaf fdm" where
  "define_tensor sz st dt fd = (Inr (TensorView (length fd)), fd @ [DefineTensor sz st dt])"

definition define_constant :: "number \<Rightarrow> leaf fdm" where
  "define_constant n fd = (Inr (Scalar (length fd)), fd @ [DefineConstant n])"

definition add_input :: "leaf \<Rightarrow> unit fdm" where
  "add_input x fd = (Inr (), fd @ [AddInput x])"

text \<open>
  Two decisions of the backend are parameters, since its code is not part of the
  source: which values \<^verbatim>\<open>add_output\<close> accepts (\<open>None\<close>: the value is registered as an
  output; \<open>Some e\<close>: the call raises \<open>e\<close>), and what \<^verbatim>\<open>fusion.execute\<close> returns for a
  definition and its runtime buffers (the output buffers, or an error).
\<close>

record backend =
  accepts_output :: "leaf \<Rightarrow> error option"
  run_fusion :: "event list \<Rightarrow> val list \<Rightarrow> error + leaf list"

definition add_output :: "backend \<Rightarrow> leaf \<Rightarrow> unit fdm" where
  "add_output be out fd =
     (case accepts_output be out of
        None \<Rightarrow> (Inr (), fd @ [AddOutput out])
      | Some e \<Rightarrow> (Inl e, fd))"

text \<open>
  \<^verbatim>\<open>with FusionDefinition(fusion) as fd: body\<close> on a fresh \<^verbatim>\<open>Fusion()\<close>: the context is
  entered, the body runs, and the context is left whether the body returned or raised;
  the exception, if any, goes on to the caller.
\<close>

definition with_FusionDefinition :: "'a fdm \<Rightarrow> (error + 'a) \<times> event list" where
  "with_FusionDefinition body = (case body [Enter] of (r, fd) \<Rightarrow> (r, fd @ [Exit]))"

section \<open>Operation targets and the graph\<close>

text \<open>
  A lowering rule \<^verbatim>\<open>impl_nvfuser(fd, *args, **kwargs)\<close> is code of the operation, not of
  the executor: it is a function of the definition so far and of its arguments that
  returns a value or raises. The attribute \<^verbatim>\<open>impl_nvfuser\<close> of a target is absent, or
  is Python's \<^verbatim>\<open>None\<close>, or is such a rule.
\<close>

type_synonym rule = "event list \<Rightarrow> val list \<Rightarrow> val pydict \<Rightarrow> error + val"

datatype attribute = Absent | PyNone | Callable rule

record target =
  op_name :: string
  impl_nvfuser :: attribute

text \<open>
  Modelled from the spec: the operation graph of \<^verbatim>\<open>torch.fx\<close>, which the source
  imports. A node has a name, a target, positional arguments and keyword arguments;
  each argument names a graph input or an earlier node, or is a literal. The graph has
  its input placeholders, its nodes in recorded order and a possibly nested output
  structure. \<open>gm_forward\<close> is the graph's own evaluation, used by the direct executor.
\<close>

datatype operand = Ref string | Const val

record node =
  node_name :: string
  node_target :: target
  node_args :: "operand list"
  node_kwargs :: "operand pydict"

record GraphModule =
  gm_placeholders :: "string list"
  gm_nodes :: "node list"
  gm_output :: "operand pytree"
  gm_forward :: "val list \<Rightarrow> val pydict \<Rightarrow> error + val"

section \<open>The fusion executor\<close>

text \<open>
  \<^verbatim>\<open>
  def _to_nvfuser_constant(arg):
      if isinstance(arg, Number):
          return fd.define_constant(arg)
      else:
          return arg
  \<close>
\<close>

fun to_nvfuser_constant :: "val \<Rightarrow> val fdm" where
  "to_nvfuser_constant (Leaf (Number n)) fd =
     (case define_constant n fd of (r, fd') \<Rightarrow> (map_sum id Leaf r, fd'))"
| "to_nvfuser_constant arg fd = (Inr arg, fd)"

text \<open>A function with effects mapped over a list, from left to right.\<close>

fun map_fd :: "('a \<Rightarrow> 'b fdm) \<Rightarrow> 'a list \<Rightarrow> 'b list fdm" where
  "map_fd f [] fd = (Inr [], fd)"
| "map_fd f (x # xs) fd =
     (case f x fd of
        (Inl e, fd') \<Rightarrow> (Inl e, fd')
      | (Inr y, fd') \<Rightarrow>
          (case map_fd f xs fd' of
             (Inl e, fd'') \<Rightarrow> (Inl e, fd'')
           | (Inr ys, fd'') \<Rightarrow> (Inr (y # ys), fd'')))"

text \<open>
  \<^verbatim>\<open>
  def call_function(self, target, args, kwargs):
      args = tuple(map(_to_nvfuser_constant, args))
      target = target.impl_nvfuser
      args = (fd,) + args
      return target(*args, **kwargs)
  \<close>
  The code checks nothing: reading an absent attribute at the third line raises
  Python's \<open>AttributeError\<close>, whose message holds the type of the object and the name
  of the attribute, and calling \<^verbatim>\<open>None\<close> at the last line raises Python's \<open>TypeError\<close>.
  In both cases the constants of the second line have been defined already.
\<close>

definition call_function :: "target \<Rightarrow> val list \<Rightarrow> val pydict \<Rightarrow> val fdm" where
  "call_function tgt args kwargs fd =
     (case map_fd to_nvfuser_constant args fd of
        (Inl e, fd') \<Rightarrow> (Inl e, fd')
      | (Inr args', fd') \<Rightarrow>
          (case impl_nvfuser tgt of
             Absent \<Rightarrow> (Inl (AttributeError ''impl_nvfuser''), fd')
           | PyNone \<Rightarrow> (Inl (TypeError '''NoneType' object is not callable''), fd')
           | Callable rule \<Rightarrow>
               (rule fd' args' kwargs, fd' @ [Lower (op_name tgt) args' kwargs])))"

text \<open>
  \<^verbatim>\<open>
  def to_nv(arg):
      if isinstance(arg, torch.Tensor):
          x = fd.define_tensor(
              arg.size(), arg.stride(), getnvFuserDtype(arg.dtype)
          )
          fd.add_input(x)
          return x
      else:
          return arg
  \<close>
  \<^verbatim>\<open>getnvFuserDtype\<close> of \<^verbatim>\<open>torch._prims.utils\<close> is a parameter: a table from dtypes to
  the backend's, \<open>None\<close> where the lookup raises.
\<close>

fun to_nv :: "(dtype \<Rightarrow> DataType option) \<Rightarrow> leaf \<Rightarrow> leaf fdm" where
  "to_nv getnvFuserDtype (Tensor arg) fd =
     (case getnvFuserDtype (tensor_dtype arg) of
        None \<Rightarrow> (Inl (KeyError ''getnvFuserDtype''), fd)
      | Some dt \<Rightarrow>
          and_then (define_tensor (tensor_size arg) (tensor_stride arg) dt)
            (\<lambda>x. and_then (add_input x) (\<lambda>_ fd'. (Inr x, fd'))) fd)"
| "to_nv getnvFuserDtype arg fd = (Inr arg, fd)"

text \<open>
  \<^verbatim>\<open>tree_map(fn, pytree)\<close> of \<^verbatim>\<open>torch.utils._pytree\<close> flattens the tree, applies the
  function to the leaves from left to right and unflattens the results.
\<close>

definition tree_map :: "('a \<Rightarrow> 'b fdm) \<Rightarrow> 'a pytree \<Rightarrow> 'b pytree fdm" where
  "tree_map f t fd =
     (case tree_flatten t of
        (flat, spec) \<Rightarrow>
          (case map_fd f flat fd of
             (Inl e, fd') \<Rightarrow> (Inl e, fd')
           | (Inr ys, fd') \<Rightarrow> (tree_unflatten ys spec, fd')))"

text \<open>The tuple \<^verbatim>\<open>args\<close> and the dictionary \<^verbatim>\<open>kwargs\<close> of a call as trees, and back.\<close>

definition tuple_tree :: "'a pytree list \<Rightarrow> 'a pytree" where
  "tuple_tree args = Node TupleK args"

definition dict_tree :: "'a pytree pydict \<Rightarrow> 'a pytree" where
  "dict_tree kwargs = Node (DictK (keys kwargs)) (dict_values kwargs)"

fun children :: "'a pytree \<Rightarrow> 'a pytree list" where
  "children (Node k ts) = ts"
| "children (Leaf x) = []"

fun items :: "'a pytree \<Rightarrow> 'a pytree pydict" where
  "items (Node (DictK ks) ts) = zip ks ts"
| "items t = []"

text \<open>
  Modelled from the spec: \<^verbatim>\<open>run\<close> of \<^verbatim>\<open>torch.fx.Interpreter\<close>, the base class of
  \<^verbatim>\<open>FusionInterpreter\<close>, which the source imports. It binds the placeholders of the graph
  to the positional arguments, walks the nodes in recorded order, resolves the arguments
  of each node to the results of earlier nodes, to graph inputs or to literals, hands
  the node to \<^verbatim>\<open>call_function\<close>, stores the result under the name of the node, and at
  last resolves the output structure. The inputs of the graph are positional only: a
  keyword argument in the call at line 66 does not fit \<^verbatim>\<open>run\<close>, and Python raises
  \<open>TypeError\<close> before anything is walked.
\<close>

type_synonym env = "val pydict"

fun bind_placeholders :: "string list \<Rightarrow> val list \<Rightarrow> error + env" where
  "bind_placeholders [] args = Inr []"
| "bind_placeholders (p # ps) (a # args) =
     map_sum id (\<lambda>env. (p, a) # env) (bind_placeholders ps args)"
| "bind_placeholders (p # ps) [] =
     Inl (RuntimeError (''Expected positional argument for parameter '' @ p))"

fun load :: "env \<Rightarrow> operand \<Rightarrow> error + val" where
  "load env (Const v) = Inr v"
| "load env (Ref n) =
     (case map_of env n of
        None \<Rightarrow> Inl (RuntimeError (''Node referenced nonexistent value '' @ n))
      | Some v \<Rightarrow> Inr v)"

fun load_all :: "env \<Rightarrow> operand list \<Rightarrow> error + val list" where
  "load_all env [] = Inr []"
| "load_all env (x # xs) =
     (case load env x of
        Inl e \<Rightarrow> Inl e
      | Inr v \<Rightarrow> map_sum id (\<lambda>vs. v # vs) (load_all env xs))"

fun subst :: "('a \<Rightarrow> 'b pytree) \<Rightarrow> 'a pytree \<Rightarrow> 'b pytree" where
  "subst f (Leaf x) = f x"
| "subst f (Node k ts) = Node k (map (subst f) ts)"

definition load_tree :: "env \<Rightarrow> operand pytree \<Rightarrow> error + val" where
  "load_tree env t =
     (case load_all env (leaves t) of
        Inl e \<Rightarrow> Inl e
      | Inr vs \<Rightarrow>
          Inr (subst (\<lambda>x. case load env x of Inr v \<Rightarrow> v | Inl e \<Rightarrow> Leaf (Object ''undefined'')) t))"

fun run_nodes :: "node list \<Rightarrow> env \<Rightarrow> env fdm" where
  "run_nodes [] env fd = (Inr env, fd)"
| "run_nodes (n # ns) env fd =
     (case load_all env (node_args n) of
        Inl e \<Rightarrow> (Inl e, fd)
      | Inr args \<Rightarrow>
          (case load_all env (dict_values (node_kwargs n)) of
             Inl e \<Rightarrow> (Inl e, fd)
           | Inr kwvals \<Rightarrow>
               (case call_function (node_target n) args (zip (keys (node_kwargs n)) kwvals) fd of
                  (Inl e, fd') \<Rightarrow> (Inl e, fd')
                | (Inr v, fd') \<Rightarrow> run_nodes ns ((node_name n, v) # env) fd')))"

definition run :: "GraphModule \<Rightarrow> val list \<Rightarrow> val pydict \<Rightarrow> val fdm" where
  "run gm args kwargs fd =
     (case kwargs of
        (k, v) # rest \<Rightarrow>
          (Inl (TypeError (''run() got an unexpected keyword argument '' @ k)), fd)
      | [] \<Rightarrow>
          (case bind_placeholders (gm_placeholders gm) args of
             Inl e \<Rightarrow> (Inl e, fd)
           | Inr env \<Rightarrow>
               (case run_nodes (gm_nodes gm) env fd of
                  (Inl e, fd') \<Rightarrow> (Inl e, fd')
                | (Inr env', fd') \<Rightarrow> (load_tree env' (gm_output gm), fd'))))"

text \<open>
  Lines 64 to 66 of \<^verbatim>\<open>execute\<close>, the registration of the inputs and the lowering of the
  nodes:
  \<^verbatim>\<open>
  nv_args = tree_map(to_nv, args)
  nv_kwargs = tree_map(to_nv, kwargs)
  out = FusionInterpreter(gm).run(*nv_args, **nv_kwargs)
  \<close>
\<close>

definition lower_graph ::
  "(dtype \<Rightarrow> DataType option) \<Rightarrow> GraphModule \<Rightarrow> val list \<Rightarrow> val pydict \<Rightarrow> val fdm" where
  "lower_graph getnvFuserDtype gm args kwargs =
     and_then (tree_map (to_nv getnvFuserDtype) (tuple_tree args)) (\<lambda>nv_args.
     and_then (tree_map (to_nv getnvFuserDtype) (dict_tree kwargs)) (\<lambda>nv_kwargs.
       run gm (children nv_args) (items nv_kwargs)))"

text \<open>
  Lines 67 to 69, the registration of the outputs:
  \<^verbatim>\<open>
  flat_out, unflatten_spec = tree_flatten(out)
  for o in flat_out:
      fd.add_output(o)
  \<close>
\<close>

definition register_outputs :: "backend \<Rightarrow> val \<Rightarrow> treespec fdm" where
  "register_outputs be out =
     (case tree_flatten out of
        (flat_out, unflatten_spec) \<Rightarrow>
          and_then (map_fd (add_output be) flat_out) (\<lambda>_ fd. (Inr unflatten_spec, fd)))"

text \<open>Lines 64 to 69 together: the definition of the fusion.\<close>

definition define_fusion ::
  "(dtype \<Rightarrow> DataType option) \<Rightarrow> backend \<Rightarrow> GraphModule \<Rightarrow> val list \<Rightarrow> val pydict \<Rightarrow>
   treespec fdm" where
  "define_fusion getnvFuserDtype be gm args kwargs =
     and_then (lower_graph getnvFuserDtype gm args kwargs) (register_outputs be)"

text \<open>
  Lines 71 to 76, the submission:
  \<^verbatim>\<open>
  return tree_unflatten(
      fusion.execute(
          tuple(arg for arg in args if isinstance(arg, torch.Tensor))
      ),
      unflatten_spec,
  )
  \<close>
  \<^verbatim>\<open>fusion.execute\<close> is the backend's \<open>run_fusion\<close>.
\<close>

fun is_Tensor :: "val \<Rightarrow> bool" where
  "is_Tensor (Leaf (Tensor t)) = True"
| "is_Tensor arg = False"

definition submit :: "backend \<Rightarrow> val list \<Rightarrow> treespec \<Rightarrow> val fdm" where
  "submit be args unflatten_spec fd =
     (let buffers = filter is_Tensor args
      in (case run_fusion be fd buffers of
            Inl e \<Rightarrow> Inl e
          | Inr outs \<Rightarrow> tree_unflatten outs unflatten_spec,
          fd @ [Execute buffers]))"

text \<open>
  \<^verbatim>\<open>execute(gm, *args, executor="aten", **kwargs)\<close>. The result of
  \<^verbatim>\<open>torch.cuda.is_available()\<close>, the dtype table and the backend are parameters. The
  second component of the result is the list of the calls made to the collaborators.
\<close>

definition execute ::
  "bool \<Rightarrow> (dtype \<Rightarrow> DataType option) \<Rightarrow> backend \<Rightarrow>
   GraphModule \<Rightarrow> val list \<Rightarrow> string \<Rightarrow> val pydict \<Rightarrow> (error + val) \<times> event list" where
  "execute cuda_is_available getnvFuserDtype be gm args executor kwargs =
     (if executor = ''aten'' then (gm_forward gm args kwargs, [Forward args kwargs])
      else if executor = ''nvfuser'' then
        (if \<not> cuda_is_available then
           (Inl (RuntimeError
              ''Attempting to use nvFuser trace executor but CUDA is not available!''), [])
         else
           with_FusionDefinition
             (and_then (define_fusion getnvFuserDtype be gm args kwargs)
                (submit be args)))
      else
        (Inl (ValueError (''Received unexpected value for 'executor': '' @ executor
                @ ''. Allowed values are: aten, nvfuser.'')), []))"

section \<open>Closed forms and the wording of the specification\<close>

text \<open>
  The entries that the loop over the signature adds to \<^verbatim>\<open>fn_kwargs\<close>: the parameters
  from index \<open>nargs\<close> on that declare a default and are not among the caller's keywords,
  in declaration order, each with its default.
\<close>

definition defaulted :: "'v parameters \<Rightarrow> nat \<Rightarrow> 'v pydict \<Rightarrow> 'v pydict" where
  "defaulted params nargs kwargs =
     map (\<lambda>(name, dflt). (name, the dflt))
       (filter (\<lambda>(name, dflt). dflt \<noteq> None \<and> name \<notin> set (keys kwargs)) (drop nargs params))"

text \<open>
  The canonical list in the words of the specification: the positional arguments,
  followed by one value for each remaining declared parameter, the caller's keyword
  value if supplied, otherwise the declared default (\<open>None\<close> where there is neither).
\<close>

definition spec_all_args :: "'v parameters \<Rightarrow> 'v list \<Rightarrow> 'v pydict \<Rightarrow> 'v option list" where
  "spec_all_args params args kwargs =
     map Some args @
     map (\<lambda>(name, dflt). case map_of kwargs name of Some v \<Rightarrow> Some v | None \<Rightarrow> dflt)
       (drop (length args) params)"

text \<open>
  The adapter in the words of the specification: the names of the keyword parameters
  in declaration order, zipped against the trailing entries.
\<close>

definition spec_wrapped ::
  "'v parameters \<Rightarrow> ('v list \<Rightarrow> 'v pydict \<Rightarrow> 'r) \<Rightarrow> nat \<Rightarrow> 'v pydict \<Rightarrow> 'v list \<Rightarrow> 'r" where
  "spec_wrapped params fn nargs fn_kwargs args =
     fn (take nargs args)
        (zip (filter (\<lambda>name. name \<in> set (keys fn_kwargs)) (map fst (drop nargs params)))
             (drop nargs args))"

section \<open>Reading the list of calls\<close>

fun is_TensorView :: "leaf \<Rightarrow> bool" where
  "is_TensorView (TensorView h) = True"
| "is_TensorView x = False"

text \<open>
  The calls that define a fusion: definitions of tensors and constants, lowerings,
  registrations of tensor handles as inputs, and registrations of outputs. Entering and
  leaving the context, submitting the fusion and replaying the graph directly are not
  among them.
\<close>

fun definition_event :: "event \<Rightarrow> bool" where
  "definition_event (DefineTensor sz st dt) = True"
| "definition_event (DefineConstant n) = True"
| "definition_event (AddInput x) = is_TensorView x"
| "definition_event (Lower nm args kwargs) = True"
| "definition_event (AddOutput x) = True"
| "definition_event e = False"

text \<open>A step only appends to the list of calls, and what it appends satisfies \<open>P\<close>.\<close>

definition appends :: "(event \<Rightarrow> bool) \<Rightarrow> 'a fdm \<Rightarrow> bool" where
  "appends P m = (\<forall>fd. \<exists>ev. snd (m fd) = fd @ ev \<and> list_all P ev)"

fun is_Execute :: "event \<Rightarrow> bool" where
  "is_Execute (Execute buffers) = True"
| "is_Execute e = False"

text \<open>The values registered by \<^verbatim>\<open>add_input\<close>, and the buffers of each submission.\<close>

fun registered_inputs :: "event list \<Rightarrow> leaf list" where
  "registered_inputs [] = []"
| "registered_inputs (AddInput x # fd) = x # registered_inputs fd"
| "registered_inputs (e # fd) = registered_inputs fd"

fun submitted_buffers :: "event list \<Rightarrow> val list list" where
  "submitted_buffers [] = []"
| "submitted_buffers (Execute buffers # fd) = buffers # submitted_buffers fd"
| "submitted_buffers (e # fd) = submitted_buffers fd"

text \<open>
  The graph cut off before the node \<open>n\<close>, with the operands of \<open>n\<close> as its output: its
  lowering succeeds exactly when the walk over the whole graph reaches \<open>n\<close> with all
  operands of \<open>n\<close> resolved.
\<close>

definition operands :: "node \<Rightarrow> operand pytree" where
  "operands n = Node TupleK (map Leaf (node_args n @ dict_values (node_kwargs n)))"

definition up_to :: "GraphModule \<Rightarrow> node list \<Rightarrow> node \<Rightarrow> GraphModule" where
  "up_to gm pre n = gm\<lparr>gm_nodes := pre, gm_output := operands n\<rparr>"

section \<open>Example inputs\<close>

text \<open>A tensor of shape \<open>2 \<times> 3\<close> with contiguous strides.\<close>

definition tensor_a :: tensor where
  "tensor_a = \<lparr>tensor_size = [2, 3], tensor_stride = [3, 1],
               tensor_dtype = torch_dtype ''float32'', tensor_data = 0\<rparr>"

text \<open>
  A dtype table that translates every dtype, and a backend whose \<^verbatim>\<open>add_output\<close> takes the
  backend's own handles, tensor views and scalars, and refuses any other Python object,
  and whose execution returns one buffer.
\<close>

definition getnv_all :: "dtype \<Rightarrow> DataType option" where
  "getnv_all d = (case d of torch_dtype s \<Rightarrow> Some (nvfuser_DataType s))"

definition one_buffer :: backend where
  "one_buffer =
     \<lparr>accepts_output =
        (\<lambda>out. case out of
                 TensorView h \<Rightarrow> None
               | Scalar h \<Rightarrow> None
               | _ \<Rightarrow> Some (TypeError ''add_output(): incompatible function arguments'')),
      run_fusion = (\<lambda>fd buffers. Inr [Tensor tensor_a])\<rparr>"

text \<open>
  The operation \<^verbatim>\<open>mul\<close> with a lowering rule that returns the handle of the new tensor
  view, the operation \<^verbatim>\<open>numel\<close> with a rule that returns the handle of a new scalar,
  and the operations \<^verbatim>\<open>erf\<close> and \<^verbatim>\<open>erfc\<close> without the attribute.
\<close>

definition mul :: target where
  "mul = \<lparr>op_name = ''mul'',
          impl_nvfuser = Callable (\<lambda>fd args kwargs. Inr (Leaf (TensorView (length fd))))\<rparr>"

definition numel :: target where
  "numel = \<lparr>op_name = ''numel'',
            impl_nvfuser = Callable (\<lambda>fd args kwargs. Inr (Leaf (Scalar (length fd))))\<rparr>"

definition erf :: target where
  "erf = \<lparr>op_name = ''erf'', impl_nvfuser = Absent\<rparr>"

definition erfc :: target where
  "erfc = \<lparr>op_name = ''erfc'', impl_nvfuser = Absent\<rparr>"

text \<open>
  The graph of \<^verbatim>\<open>g(a, c=2.0) = a * c\<close> called as \<^verbatim>\<open>g(a)\<close>: the scalar is a literal of the
  node. In \<open>graph_g_kw\<close> the node takes the graph input \<open>c\<close> as a keyword operand; in
  \<open>graph_erf\<close> and \<open>graph_erfc\<close> a node without lowering rule follows;
  \<open>graph_scalar_out\<close> returns the tensor together with the scalar input;
  \<open>graph_numel\<close> returns the scalar handle of \<^verbatim>\<open>numel\<close>; \<open>graph_id\<close> returns its input.
\<close>

definition node_mul :: node where
  "node_mul = \<lparr>node_name = ''mul'', node_target = mul,
               node_args = [Ref ''a'', Const (Leaf (Number (PyFloat 2)))], node_kwargs = []\<rparr>"

definition node_mul_kw :: node where
  "node_mul_kw = \<lparr>node_name = ''mul'', node_target = mul,
                  node_args = [Ref ''a''], node_kwargs = [(''other'', Ref ''c'')]\<rparr>"

definition node_erf :: node where
  "node_erf = \<lparr>node_name = ''erf'', node_target = erf,
               node_args = [Ref ''mul''], node_kwargs = []\<rparr>"

definition node_erfc :: node where
  "node_erfc = \<lparr>node_name = ''erfc'', node_target = erfc,
                node_args = [Ref ''mul''], node_kwargs = []\<rparr>"

definition node_numel :: node where
  "node_numel = \<lparr>node_name = ''numel'', node_target = numel,
                 node_args = [Ref ''a''], node_kwargs = []\<rparr>"

definition graph_g :: GraphModule where
  "graph_g = \<lparr>gm_placeholders = [''a'', ''c''], gm_nodes = [node_mul],
              gm_output = Leaf (Ref ''mul''),
              gm_forward = (\<lambda>args kwargs. Inr (Leaf (Tensor tensor_a)))\<rparr>"

definition graph_g_kw :: GraphModule where
  "graph_g_kw = graph_g\<lparr>gm_nodes := [node_mul_kw]\<rparr>"

definition graph_erf :: GraphModule where
  "graph_erf = graph_g\<lparr>gm_nodes := [node_mul, node_erf], gm_output := Leaf (Ref ''erf'')\<rparr>"

definition graph_erfc :: GraphModule where
  "graph_erfc = graph_g\<lparr>gm_nodes := [node_mul, node_erfc], gm_output := Leaf (Ref ''erfc'')\<rparr>"

definition graph_numel :: GraphModule where
  "graph_numel = graph_g\<lparr>gm_nodes := [node_numel], gm_output := Leaf (Ref ''numel'')\<rparr>"

definition graph_scalar_out :: GraphModule where
  "graph_scalar_out = graph_g\<lparr>gm_output := Node TupleK [Leaf (Ref ''mul''), Leaf (Ref ''c'')]\<rparr>"

definition graph_id :: GraphModule where
  "graph_id = \<lparr>gm_placeholders = [''x''], gm_nodes = [],
               gm_output = Leaf (Ref ''x''),
               gm_forward = (\<lambda>args kwargs. Inr (Leaf (Tensor tensor_a)))\<rparr>"

section \<open>Dictionaries and the canonicalizer\<close>

lemma setitem_new: "k \<notin> set (keys d) \<Longrightarrow> setitem d k v = d @ [(k, v)]"
  by (induction d) (auto simp: keys_def)

lemma fold_setitem_distinct:
  "distinct (map fst (acc @ kvs)) \<Longrightarrow> fold (\<lambda>(k, v) d. setitem d k v) kvs acc = acc @ kvs"
proof (induction kvs arbitrary: acc)
  case Nil
  then show ?case by simp
next
  case (Cons kv kvs)
  obtain k v where kv: "kv = (k, v)" by (cases kv)
  from Cons.prems have "k \<notin> set (keys acc)" by (auto simp: kv keys_def)
  then have s: "setitem acc k v = acc @ [(k, v)]" by (rule setitem_new)
  from Cons.prems have "distinct (map fst ((acc @ [(k, v)]) @ kvs))" by (simp add: kv)
  from Cons.IH[OF this] show ?case by (simp add: kv s)
qed

lemma dict_distinct: "distinct (map fst kvs) \<Longrightarrow> dict kvs = kvs"
  using fold_setitem_distinct[of "[]" kvs] by (simp add: dict_def)

lemma copy_kwargs_distinct: "distinct (keys kwargs) \<Longrightarrow> copy_kwargs kwargs = kwargs"
  using fold_setitem_distinct[of "[]" kwargs] by (simp add: copy_kwargs_def keys_def)

lemma populate_defaults_distinct:
  "distinct (keys fn_kwargs) \<Longrightarrow> distinct (keys (populate_defaults nargs i ps fn_kwargs))"
  by (induction nargs i ps fn_kwargs rule: populate_defaults.induct)
     (auto simp: setitem_new keys_def split: option.splits)

lemma merged_kwargs_distinct:
  "distinct (keys kwargs) \<Longrightarrow> distinct (keys (merged_kwargs params args kwargs))"
  by (simp add: merged_kwargs_def copy_kwargs_distinct populate_defaults_distinct)

lemma populate_defaults_closed:
  "distinct (map fst ps) \<Longrightarrow> set (keys extra) \<inter> fst ` set ps = {} \<Longrightarrow>
   populate_defaults nargs i ps (fk @ extra) =
   fk @ extra @ map (\<lambda>(name, dflt). (name, the dflt))
     (filter (\<lambda>(name, dflt). dflt \<noteq> None \<and> name \<notin> set (keys fk)) (drop (nargs - i) ps))"
proof (induction ps arbitrary: i extra)
  case Nil
  then show ?case by simp
next
  case (Cons p ps)
  obtain name dflt where p: "p = (name, dflt)" by (cases p)
  from Cons.prems have d: "distinct (map fst ps)" and nps: "name \<notin> fst ` set ps"
    and nex: "name \<notin> set (keys extra)" and dis: "set (keys extra) \<inter> fst ` set ps = {}"
    by (auto simp: p)
  show ?case
  proof (cases "i < nargs")
    case True
    then have "nargs - i = Suc (nargs - Suc i)" by simp
    with True Cons.IH[OF d dis, of "Suc i"] show ?thesis by (simp add: p)
  next
    case False
    then have z: "nargs - i = 0" "nargs - Suc i = 0" by simp_all
    show ?thesis
    proof (cases "dflt \<noteq> None \<and> name \<notin> set (keys fk)")
      case True
      then obtain v where v: "dflt = Some v" by auto
      from True nex have "name \<notin> set (keys (fk @ extra))" by (simp add: keys_def)
      then have s: "setitem (fk @ extra) name v = fk @ (extra @ [(name, v)])"
        by (simp add: setitem_new)
      have "set (keys (extra @ [(name, v)])) \<inter> fst ` set ps = {}"
        using dis nps by (auto simp: keys_def)
      from Cons.IH[OF d this, of "Suc i"] True False \<open>name \<notin> set (keys (fk @ extra))\<close>
      show ?thesis by (simp add: p v s z)
    next
      case False
      with \<open>\<not> i < nargs\<close> Cons.IH[OF d dis, of "Suc i"] show ?thesis
        by (auto simp: p z keys_def split: option.splits)
    qed
  qed
qed

lemma merged_kwargs_closed:
  assumes "distinct (keys kwargs)" and "distinct (map fst params)"
  shows "merged_kwargs params args kwargs = kwargs @ defaulted params (length args) kwargs"
  using populate_defaults_closed[OF assms(2), of "[]" "length args" 0 kwargs] assms(1)
  by (simp add: merged_kwargs_def copy_kwargs_distinct defaulted_def keys_def)

text \<open>
  Claim C10. Applying the adapter to the canonical flat argument list gives back the
  split the list was built from: the traced function receives the original positional
  arguments and the merged keyword dictionary. Flattening that split gives the
  canonical list again, so applying the adapter once more yields the same split.
\<close>

theorem adapter_reproduces_split:
  assumes "distinct (keys kwargs)"
  shows "wrapped fn (length args) (merged_kwargs params args kwargs)
           (all_args params args kwargs)
         = fn args (merged_kwargs params args kwargs)
       \<and> (let split = wrapped Pair (length args) (merged_kwargs params args kwargs)
                         (all_args params args kwargs)
          in split = (args, merged_kwargs params args kwargs)
           \<and> fst split @ dict_values (snd split) = all_args params args kwargs
           \<and> wrapped Pair (length args) (merged_kwargs params args kwargs)
                (fst split @ dict_values (snd split)) = split)"
proof -
  let ?m = "merged_kwargs params args kwargs"
  have "distinct (map fst ?m)"
    using merged_kwargs_distinct[OF assms] by (simp add: keys_def)
  then have z: "dict (zip (keys ?m) (dict_values ?m)) = ?m"
    by (simp add: keys_def dict_values_def zip_map_fst_snd dict_distinct)
  have w: "wrapped f (length args) ?m (args @ dict_values ?m) = f args ?m" for f :: "'a list \<Rightarrow> 'a pydict \<Rightarrow> 'c"
    by (simp add: wrapped_def z)
  show ?thesis
    by (simp add: all_args_def w[of fn] w[of Pair])
qed

theorem adapter_reproduces_split_witness:
  "distinct (keys ([] :: leaf pydict))
   \<and> wrapped Pair (length [Tensor tensor_a])
        (merged_kwargs [(''a'', None), (''c'', Some (Number (PyFloat 2)))] [Tensor tensor_a] [])
        (all_args [(''a'', None), (''c'', Some (Number (PyFloat 2)))] [Tensor tensor_a] [])
     = ([Tensor tensor_a], [(''c'', Number (PyFloat 2))])"
  using adapter_reproduces_split
    [of "[]" Pair "[Tensor tensor_a]" "[(''a'', None), (''c'', Some (Number (PyFloat 2)))]"]
  by (simp add: keys_def merged_kwargs_def copy_kwargs_def)

text \<open>
  Claim C2, as the code has it. The canonical flat argument list is the caller's
  positional arguments in their original positions, followed by the caller's keyword
  values in the order the caller supplied them, followed by the declared default of
  each remaining declared parameter that has one and was not supplied by keyword, in
  declaration order. Calling \<^verbatim>\<open>g(a, c=2.0)\<close> as \<^verbatim>\<open>g(a)\<close> yields \<^verbatim>\<open>[a, 2.0]\<close>.
\<close>

theorem all_args_order:
  assumes "distinct (keys kwargs)" and "distinct (map fst params)"
  shows "all_args params args kwargs =
           args @ dict_values kwargs @ dict_values (defaulted params (length args) kwargs)"
  by (simp add: all_args_def merged_kwargs_closed[OF assms] dict_values_def)

theorem all_args_order_witness:
  "distinct (keys ([] :: leaf pydict))
   \<and> distinct (map fst [(''a'', None), (''c'', Some (Number (PyFloat 2)))])
   \<and> all_args [(''a'', None), (''c'', Some (Number (PyFloat 2)))] [Tensor tensor_a] []
     = [Tensor tensor_a, Number (PyFloat 2)]"
  using all_args_order
    [of "[]" "[(''a'', None), (''c'', Some (Number (PyFloat 2)))]" "[Tensor tensor_a]"]
  by (simp add: keys_def defaulted_def dict_values_def)

text \<open>
  Claim C2 as stated fails: for \<^verbatim>\<open>f(a, b=1, c=2)\<close> called as \<^verbatim>\<open>f(10, c=5)\<close> the code
  builds \<^verbatim>\<open>[10, 5, 1]\<close>, the keyword value before the default of the earlier parameter,
  where one value for each remaining declared parameter gives \<^verbatim>\<open>[10, 1, 5]\<close>.
\<close>

theorem all_args_declaration_order_counterexample:
  "all_args [(''a'', None), (''b'', Some 1), (''c'', Some 2)] [10] [(''c'', 5)]
     = [10, 5, 1 :: int]
   \<and> spec_all_args [(''a'', None), (''b'', Some 1), (''c'', Some 2)] [10] [(''c'', 5)]
     = [Some 10, Some 1, Some (5 :: int)]
   \<and> map Some (all_args [(''a'', None), (''b'', Some 1), (''c'', Some 2)] [10] [(''c'', 5)])
     \<noteq> spec_all_args [(''a'', None), (''b'', Some 1), (''c'', Some 2)] [10] [(''c'', 5 :: int)]"
  by (simp add: all_args_def merged_kwargs_def copy_kwargs_def keys_def dict_values_def
      spec_all_args_def)

text \<open>
  Claim C3, as the code has it. Given a flat sequence of the arity of the canonical
  argument list, the adapter passes on its first \<open>nargs\<close> entries as the positional
  prefix and a keyword dictionary that zips the keys of the merged keyword dictionary,
  in its insertion order (the caller's keywords in the order supplied, then the
  defaulted parameters in declaration order), against the trailing entries; the
  dictionary has exactly the keys of the merged one.
\<close>

theorem adapter_resplits:
  assumes "distinct (keys kwargs)" and "distinct (map fst params)"
    and "length flat = length (all_args params args kwargs)"
  shows "wrapped fn (length args) (merged_kwargs params args kwargs) flat
         = fn (take (length args) flat)
              (zip (keys kwargs @ keys (defaulted params (length args) kwargs))
                   (drop (length args) flat))
       \<and> length (take (length args) flat) = length args
       \<and> keys (zip (keys kwargs @ keys (defaulted params (length args) kwargs))
                  (drop (length args) flat))
         = keys (merged_kwargs params args kwargs)"
proof -
  let ?m = "merged_kwargs params args kwargs"
  let ?ks = "keys kwargs @ keys (defaulted params (length args) kwargs)"
  have k: "keys ?m = ?ks"
    by (simp add: merged_kwargs_closed[OF assms(1,2)] keys_def)
  have len: "length (drop (length args) flat) = length ?ks"
    using assms(3) by (simp add: all_args_def dict_values_def keys_def
        merged_kwargs_closed[OF assms(1,2)])
  have d: "distinct ?ks"
    using merged_kwargs_distinct[OF assms(1), of params args] by (simp add: k)
  have "distinct (map fst (zip ?ks (drop (length args) flat)))"
    using d len by (simp del: distinct_append)
  then have z: "dict (zip ?ks (drop (length args) flat)) = zip ?ks (drop (length args) flat)"
    by (rule dict_distinct)
  have "wrapped fn (length args) ?m flat
        = fn (take (length args) flat) (zip ?ks (drop (length args) flat))"
    by (simp add: wrapped_def k z)
  moreover have "length (take (length args) flat) = length args"
    using assms(3) by (simp add: all_args_def)
  moreover have "keys (zip ?ks (drop (length args) flat)) = keys ?m"
  proof -
    have "map fst (zip ?ks (drop (length args) flat)) = ?ks"
      using len by (simp del: map_append)
    then show ?thesis unfolding k by (simp only: keys_def[of "zip _ _"])
  qed
  ultimately show ?thesis by blast
qed

theorem adapter_resplits_witness:
  "distinct (keys [(''c'', 5 :: int)])
   \<and> distinct (map fst [(''a'', None), (''b'', Some 1), (''c'', Some (2 :: int))])
   \<and> length [7, 8, 9 :: int]
     = length (all_args [(''a'', None), (''b'', Some 1), (''c'', Some 2)] [10] [(''c'', 5)])
   \<and> wrapped Pair (length [10 :: int])
        (merged_kwargs [(''a'', None), (''b'', Some 1), (''c'', Some 2)] [10] [(''c'', 5)])
        [7, 8, 9 :: int]
     = ([7], [(''c'', 8), (''b'', 9)])"
  using adapter_resplits
    [of "[(''c'', 5 :: int)]" "[(''a'', None), (''b'', Some 1), (''c'', Some 2)]"
        "[7, 8, 9]" "[10]" Pair]
  by (simp add: keys_def defaulted_def all_args_def merged_kwargs_def copy_kwargs_def
      dict_values_def)

text \<open>
  Claim C3 as stated fails: for \<^verbatim>\<open>f(a, b=1, c=2)\<close> called as \<^verbatim>\<open>f(10, c=5)\<close> the adapter
  zips the keys \<^verbatim>\<open>c, b\<close> against the trailing entries \<^verbatim>\<open>5, 1\<close>; zipping the keyword
  parameter names in declaration order, \<^verbatim>\<open>b, c\<close>, would hand \<^verbatim>\<open>b=5, c=1\<close> to the function.
\<close>

theorem adapter_declaration_order_counterexample:
  "wrapped Pair 1
     (merged_kwargs [(''a'', None), (''b'', Some 1), (''c'', Some 2)] [10] [(''c'', 5)])
     [10, 5, 1 :: int]
   = ([10], [(''c'', 5), (''b'', 1)])
   \<and> spec_wrapped [(''a'', None), (''b'', Some 1), (''c'', Some 2)] Pair 1
     (merged_kwargs [(''a'', None), (''b'', Some 1), (''c'', Some 2)] [10] [(''c'', 5)])
     [10, 5, 1 :: int]
   = ([10], [(''b'', 5), (''c'', 1)])"
  by (simp add: wrapped_def spec_wrapped_def merged_kwargs_def copy_kwargs_def keys_def
      dict_def)

section \<open>The dispatcher\<close>

text \<open>
  Claim C5. For every executor name other than \<^verbatim>\<open>aten\<close> and \<^verbatim>\<open>nvfuser\<close>, \<^verbatim>\<open>execute\<close> fails
  with the \<open>ValueError\<close> (the specification's \<open>InvalidExecutorError\<close>) whose message
  carries the offending name and the valid names, and no call has been made to the
  graph or to the backend before it fails.
\<close>

theorem execute_invalid_executor:
  assumes "executor \<noteq> ''aten''" and "executor \<noteq> ''nvfuser''"
  shows "execute cuda_is_available getnvFuserDtype be gm args executor kwargs
         = (Inl (ValueError (''Received unexpected value for 'executor': '' @ executor
                  @ ''. Allowed values are: aten, nvfuser.'')), [])"
  using assms by (simp add: execute_def)

theorem execute_invalid_executor_witness:
  "''cuda'' \<noteq> ''aten'' \<and> ''cuda'' \<noteq> ''nvfuser''
   \<and> execute True getnv_all one_buffer graph_g [Leaf (Tensor tensor_a)] ''cuda'' []
     = (Inl (ValueError
         ''Received unexpected value for 'executor': cuda. Allowed values are: aten, nvfuser.''),
        [])"
  using execute_invalid_executor
    [of "''cuda''" True getnv_all one_buffer graph_g "[Leaf (Tensor tensor_a)]" "[]"]
  by simp

text \<open>
  Claim C6. With the executor \<^verbatim>\<open>nvfuser\<close> and no accelerator, \<^verbatim>\<open>execute\<close> fails with the
  \<open>RuntimeError\<close> (the specification's \<open>BackendUnavailableError\<close>), for every graph and
  all arguments, and no call has been made to the backend: nothing is defined, nothing
  is submitted.
\<close>

theorem execute_nvfuser_without_cuda:
  assumes "\<not> cuda_is_available"
  shows "execute cuda_is_available getnvFuserDtype be gm args ''nvfuser'' kwargs
         = (Inl (RuntimeError
              ''Attempting to use nvFuser trace executor but CUDA is not available!''), [])"
  using assms by (simp add: execute_def)

theorem execute_nvfuser_without_cuda_witness:
  "\<not> False
   \<and> execute False getnv_all one_buffer graph_g [Leaf (Tensor tensor_a)] ''nvfuser'' []
     = (Inl (RuntimeError
          ''Attempting to use nvFuser trace executor but CUDA is not available!''), [])"
  using execute_nvfuser_without_cuda
    [of False getnv_all one_buffer graph_g "[Leaf (Tensor tensor_a)]" "[]"]
  by simp

section \<open>What the steps of the fusion executor append\<close>

lemma appendsI:
  "(\<And>fd. \<exists>ev. snd (m fd) = fd @ ev \<and> list_all P ev) \<Longrightarrow> appends P m"
  by (simp add: appends_def)

lemma appendsD: "appends P m \<Longrightarrow> \<exists>ev. snd (m fd) = fd @ ev \<and> list_all P ev"
  by (simp add: appends_def)

lemma appends_and_then:
  assumes "appends P m" and "\<And>x. appends P (f x)"
  shows "appends P (and_then m f)"
proof (rule appendsI)
  fix fd
  obtain r fd' where m: "m fd = (r, fd')" by (cases "m fd")
  from appendsD[OF assms(1), of fd] m obtain ev where ev: "fd' = fd @ ev" "list_all P ev"
    by auto
  show "\<exists>ev. snd (and_then m f fd) = fd @ ev \<and> list_all P ev"
  proof (cases r)
    case (Inl e)
    with m ev show ?thesis by (auto simp: and_then_def)
  next
    case (Inr x)
    from appendsD[OF assms(2), of x fd'] obtain ev' where
      "snd (f x fd') = fd' @ ev'" "list_all P ev'" by auto
    with m ev Inr show ?thesis by (auto simp: and_then_def)
  qed
qed

lemma appends_return: "appends P (\<lambda>fd. (r, fd))"
  by (rule appendsI) simp

lemma appends_map_fd:
  assumes "\<And>x. appends P (f x)"
  shows "appends P (map_fd f xs)"
proof (induction xs)
  case Nil
  show ?case by (rule appendsI) simp
next
  case (Cons x xs)
  show ?case
  proof (rule appendsI)
    fix fd
    obtain r fd' where m: "f x fd = (r, fd')" by (cases "f x fd")
    from appendsD[OF assms, of x fd] m obtain ev where ev: "fd' = fd @ ev" "list_all P ev"
      by auto
    show "\<exists>ev. snd (map_fd f (x # xs) fd) = fd @ ev \<and> list_all P ev"
    proof (cases r)
      case (Inl e)
      with m ev show ?thesis by auto
    next
      case (Inr y)
      obtain r' fd'' where m': "map_fd f xs fd' = (r', fd'')" by (cases "map_fd f xs fd'")
      from appendsD[OF Cons.IH, of fd'] m' obtain ev' where
        "fd'' = fd' @ ev'" "list_all P ev'" by auto
      with m m' ev Inr show ?thesis by (cases r') auto
    qed
  qed
qed

lemma appends_to_nv: "appends definition_event (to_nv getnvFuserDtype x)"
proof (rule appendsI)
  fix fd
  show "\<exists>ev. snd (to_nv getnvFuserDtype x fd) = fd @ ev \<and> list_all definition_event ev"
    by (cases x)
       (auto simp: and_then_def define_tensor_def add_input_def split: option.splits)
qed

lemma appends_tree_map:
  assumes "\<And>x. appends P (f x)"
  shows "appends P (tree_map f t)"
proof (rule appendsI)
  fix fd
  from appendsD[OF appends_map_fd[of P f "leaves t"], OF assms, of fd]
  obtain ev where "snd (map_fd f (leaves t) fd) = fd @ ev" "list_all P ev" by auto
  then show "\<exists>ev. snd (tree_map f t fd) = fd @ ev \<and> list_all P ev"
    by (cases "map_fd f (leaves t) fd")
       (auto simp: tree_map_def tree_flatten_def split: sum.splits)
qed

lemma appends_to_nvfuser_constant: "appends definition_event (to_nvfuser_constant x)"
proof (rule appendsI)
  fix fd
  show "\<exists>ev. snd (to_nvfuser_constant x fd) = fd @ ev \<and> list_all definition_event ev"
    by (cases "(x, fd)" rule: to_nvfuser_constant.cases) (auto simp: define_constant_def)
qed

lemma appends_call_function: "appends definition_event (call_function tgt args kwargs)"
proof (rule appendsI)
  fix fd
  from appendsD[OF appends_map_fd[of definition_event to_nvfuser_constant args],
      OF appends_to_nvfuser_constant, of fd]
  obtain ev where "snd (map_fd to_nvfuser_constant args fd) = fd @ ev"
    "list_all definition_event ev" by auto
  then show "\<exists>ev. snd (call_function tgt args kwargs fd) = fd @ ev
                \<and> list_all definition_event ev"
    by (cases "map_fd to_nvfuser_constant args fd")
       (auto simp: call_function_def split: sum.splits attribute.splits)
qed

lemma appends_run_nodes: "appends definition_event (run_nodes ns env)"
proof (induction ns arbitrary: env)
  case Nil
  show ?case by (rule appendsI) simp
next
  case (Cons n ns)
  show ?case
  proof (rule appendsI)
    fix fd
    show "\<exists>ev. snd (run_nodes (n # ns) env fd) = fd @ ev \<and> list_all definition_event ev"
    proof (cases "load_all env (node_args n)")
      case (Inl e)
      then show ?thesis by simp
    next
      case args: (Inr args)
      show ?thesis
      proof (cases "load_all env (dict_values (node_kwargs n))")
        case (Inl e)
        with args show ?thesis by simp
      next
        case kw: (Inr kwvals)
        let ?c = "call_function (node_target n) args (zip (keys (node_kwargs n)) kwvals)"
        obtain r fd' where c: "?c fd = (r, fd')" by (cases "?c fd")
        from appendsD[OF appends_call_function,
            of "node_target n" args "zip (keys (node_kwargs n)) kwvals" fd] c
        obtain ev where ev: "fd' = fd @ ev" "list_all definition_event ev" by auto
        show ?thesis
        proof (cases r)
          case (Inl e)
          with args kw c ev show ?thesis by simp
        next
          case (Inr v)
          from appendsD[OF Cons.IH, of "(node_name n, v) # env" fd'] obtain ev' where
            "snd (run_nodes ns ((node_name n, v) # env) fd') = fd' @ ev'"
            "list_all definition_event ev'" by auto
          with args kw c ev Inr show ?thesis by auto
        qed
      qed
    qed
  qed
qed

lemma appends_run: "appends definition_event (run gm args kwargs)"
proof (rule appendsI)
  fix fd
  show "\<exists>ev. snd (run gm args kwargs fd) = fd @ ev \<and> list_all definition_event ev"
  proof (cases kwargs)
    case (Cons kv rest)
    then show ?thesis by (cases kv) (simp add: run_def)
  next
    case Nil
    show ?thesis
    proof (cases "bind_placeholders (gm_placeholders gm) args")
      case (Inl e)
      with Nil show ?thesis by (simp add: run_def)
    next
      case (Inr env)
      from appendsD[OF appends_run_nodes, of "gm_nodes gm" env fd] obtain ev where
        "snd (run_nodes (gm_nodes gm) env fd) = fd @ ev" "list_all definition_event ev"
        by auto
      with Inr Nil show ?thesis
        by (cases "run_nodes (gm_nodes gm) env fd") (auto simp: run_def split: sum.splits)
    qed
  qed
qed

lemma appends_lower_graph:
  "appends definition_event (lower_graph getnvFuserDtype gm args kwargs)"
  unfolding lower_graph_def
  by (intro appends_and_then appends_tree_map appends_to_nv appends_run)

lemma appends_add_output: "appends definition_event (add_output be x)"
  by (rule appendsI) (simp add: add_output_def split: option.splits)

lemma appends_register_outputs: "appends definition_event (register_outputs be out)"
  unfolding register_outputs_def tree_flatten_def
  by (simp, intro appends_and_then appends_map_fd appends_add_output appends_return)

lemma appends_define_fusion:
  "appends definition_event (define_fusion getnvFuserDtype be gm args kwargs)"
  unfolding define_fusion_def
  by (intro appends_and_then appends_lower_graph appends_register_outputs)

section \<open>The scope of the definition and the submission\<close>

lemma definition_event_not_Execute:
  "list_all definition_event ev \<Longrightarrow> list_all (\<lambda>e. \<not> is_Execute e) ev"
proof (induction ev)
  case Nil
  show ?case by simp
next
  case (Cons e ev)
  then show ?case by (cases e) simp_all
qed

lemma snd_submit:
  "snd (submit be args spec fd) = fd @ [Execute (filter is_Tensor args)]"
  by (simp add: submit_def Let_def)

lemma execute_nvfuser_log:
  assumes "cuda_is_available"
  shows "\<exists>ev. list_all definition_event ev
           \<and> snd (define_fusion getnvFuserDtype be gm args kwargs [Enter]) = Enter # ev
           \<and> (case fst (define_fusion getnvFuserDtype be gm args kwargs [Enter]) of
                Inl e \<Rightarrow>
                  execute cuda_is_available getnvFuserDtype be gm args
                    ''nvfuser'' kwargs = (Inl e, Enter # ev @ [Exit])
              | Inr unflatten_spec \<Rightarrow>
                  snd (execute cuda_is_available getnvFuserDtype be gm args
                    ''nvfuser'' kwargs)
                  = Enter # ev @ [Execute (filter is_Tensor args), Exit])"
proof -
  let ?d = "define_fusion getnvFuserDtype be gm args kwargs"
  obtain r fd where d: "?d [Enter] = (r, fd)" by (cases "?d [Enter]")
  from appendsD[OF appends_define_fusion, of getnvFuserDtype be gm args kwargs "[Enter]"] d
  obtain ev where ev: "fd = Enter # ev" "list_all definition_event ev" by auto
  show ?thesis
  proof (cases r)
    case (Inl e)
    with assms d ev show ?thesis
      by (auto simp: execute_def with_FusionDefinition_def and_then_def)
  next
    case (Inr spec)
    have "snd (submit be args spec fd) = fd @ [Execute (filter is_Tensor args)]"
      by (rule snd_submit)
    with assms d ev Inr show ?thesis
      by (cases "submit be args spec fd")
         (auto simp: execute_def with_FusionDefinition_def and_then_def)
  qed
qed

text \<open>
  Claim C9. With an accelerator, every fusion execution enters the definition context
  first and leaves it last, on the failing path as on the returning one. Everything
  between is a definition step (a tensor or constant definition, an input or output
  registration, a lowering), followed on the returning path only by the one submission
  to the backend. When a definition step fails, its error is the result, the context
  has been left, and nothing was submitted.
\<close>

theorem fusion_definition_scope:
  assumes "cuda_is_available"
  shows "\<exists>ev. list_all definition_event ev
           \<and> snd (define_fusion getnvFuserDtype be gm args kwargs [Enter]) = Enter # ev
           \<and> (case fst (define_fusion getnvFuserDtype be gm args kwargs [Enter]) of
                Inl e \<Rightarrow>
                  execute cuda_is_available getnvFuserDtype be gm args
                    ''nvfuser'' kwargs = (Inl e, Enter # ev @ [Exit])
              | Inr unflatten_spec \<Rightarrow>
                  snd (execute cuda_is_available getnvFuserDtype be gm args
                    ''nvfuser'' kwargs)
                  = Enter # ev @ [Execute (filter is_Tensor args), Exit])"
  using assms by (rule execute_nvfuser_log)

section \<open>Evaluating the executor on concrete inputs\<close>

lemmas executor_defs =
  execute_def with_FusionDefinition_def and_then_def define_fusion_def lower_graph_def
  register_outputs_def tree_map_def tree_flatten_def tuple_tree_def dict_tree_def keys_def
  dict_values_def tree_unflatten_def run_def call_function_def define_tensor_def
  define_constant_def add_input_def add_output_def load_tree_def submit_def up_to_def
  operands_def

lemmas example_defs =
  graph_g_def graph_g_kw_def graph_erf_def graph_erfc_def graph_numel_def
  graph_scalar_out_def graph_id_def node_mul_def node_mul_kw_def node_erf_def
  node_erfc_def node_numel_def mul_def numel_def erf_def erfc_def one_buffer_def
  getnv_all_def tensor_a_def

lemma execute_graph_g:
  "execute True getnv_all one_buffer graph_g
     [Leaf (Tensor tensor_a), Leaf (Number (PyFloat 2))] ''nvfuser'' []
   = (Inr (Leaf (Tensor tensor_a)),
      [Enter,
       DefineTensor (tensor_size tensor_a) (tensor_stride tensor_a) (nvfuser_DataType ''float32''),
       AddInput (TensorView 1),
       DefineConstant (PyFloat 2),
       Lower ''mul'' [Leaf (TensorView 1), Leaf (Scalar 3)] [],
       AddOutput (TensorView 4),
       Execute [Leaf (Tensor tensor_a)],
       Exit])"
  by (simp add: executor_defs example_defs)

theorem fusion_definition_scope_witness:
  "True
   \<and> (\<exists>ev. list_all definition_event ev
          \<and> snd (execute True getnv_all one_buffer graph_g
                   [Leaf (Tensor tensor_a), Leaf (Number (PyFloat 2))] ''nvfuser'' [])
            = Enter # ev @ [Execute [Leaf (Tensor tensor_a)], Exit])"
proof -
  have d: "fst (define_fusion getnv_all one_buffer graph_g
                 [Leaf (Tensor tensor_a), Leaf (Number (PyFloat 2))] [] [Enter])
           = Inr LeafSpec"
    by (simp add: executor_defs example_defs)
  from fusion_definition_scope
    [where cuda_is_available = True and getnvFuserDtype = getnv_all and be = one_buffer
       and gm = graph_g and args = "[Leaf (Tensor tensor_a), Leaf (Number (PyFloat 2))]"
       and kwargs = "[]"]
  show ?thesis unfolding d by auto
qed

section \<open>Outputs that are not tensors\<close>

lemma add_outputs_accepted:
  "list_all (\<lambda>x. accepts_output be x = None) xs \<Longrightarrow>
   \<exists>us. map_fd (add_output be) xs fd = (Inr us, fd @ map AddOutput xs)"
proof (induction xs arbitrary: fd)
  case Nil
  show ?case by simp
next
  case (Cons x xs)
  then have x: "add_output be x fd = (Inr (), fd @ [AddOutput x])"
    by (simp add: add_output_def)
  from Cons obtain us where
    "map_fd (add_output be) xs (fd @ [AddOutput x]) = (Inr us, (fd @ [AddOutput x]) @ map AddOutput xs)"
    by fastforce
  with x show ?case by simp
qed

lemma add_outputs_refused:
  assumes "list_all (\<lambda>x. accepts_output be x = None) pre"
    and "accepts_output be x = Some e"
  shows "map_fd (add_output be) (pre @ x # post) fd = (Inl e, fd @ map AddOutput pre)"
  using assms(1)
proof (induction pre arbitrary: fd)
  case Nil
  with assms(2) show ?case by (simp add: add_output_def)
next
  case (Cons p pre)
  then have p: "add_output be p fd = (Inr (), fd @ [AddOutput p])"
    by (simp add: add_output_def)
  from Cons have "map_fd (add_output be) (pre @ x # post) (fd @ [AddOutput p])
                  = (Inl e, (fd @ [AddOutput p]) @ map AddOutput pre)"
    by simp
  with p show ?case by simp
qed

lemma lower_graph_log:
  assumes "lower_graph getnvFuserDtype gm args kwargs [Enter] = (r, fd)"
  shows "\<exists>ev. fd = Enter # ev \<and> list_all definition_event ev"
  using appendsD[OF appends_lower_graph, of getnvFuserDtype gm args kwargs "[Enter]"] assms
  by auto

text \<open>
  Claim C8, as the code has it. With an accelerator, when the inputs are registered and
  all nodes of the graph are lowered without failure, the executor hands every leaf of
  the flattened output to the backend's \<^verbatim>\<open>add_output\<close>, in order and before the
  submission, and checks none of them itself. When the backend accepts every leaf, all
  of them are registered as outputs, tensors or not, and the fusion is submitted. When
  the backend refuses a leaf, the leaves before it have been registered, the backend's
  own error is the result of the execution, the context is left and nothing is
  submitted.
\<close>

theorem outputs_registered_unchecked:
  assumes "cuda_is_available"
    and "lower_graph getnvFuserDtype gm args kwargs [Enter] = (Inr out, fd)"
  shows "(list_all (\<lambda>x. accepts_output be x = None) (leaves out) \<longrightarrow>
            snd (execute cuda_is_available getnvFuserDtype be gm args ''nvfuser'' kwargs)
            = fd @ map AddOutput (leaves out) @ [Execute (filter is_Tensor args), Exit])
       \<and> (\<forall>pre x post e.
            leaves out = pre @ x # post
            \<and> list_all (\<lambda>x. accepts_output be x = None) pre
            \<and> accepts_output be x = Some e \<longrightarrow>
            execute cuda_is_available getnvFuserDtype be gm args ''nvfuser'' kwargs
            = (Inl e, fd @ map AddOutput pre @ [Exit])
            \<and> list_all (\<lambda>e. \<not> is_Execute e) (fd @ map AddOutput pre @ [Exit]))"
proof (intro conjI impI allI)
  assume "list_all (\<lambda>x. accepts_output be x = None) (leaves out)"
  from add_outputs_accepted[OF this, of fd] obtain us where
    "map_fd (add_output be) (leaves out) fd = (Inr us, fd @ map AddOutput (leaves out))"
    by blast
  with assms have "define_fusion getnvFuserDtype be gm args kwargs [Enter]
                   = (Inr (spec_of out), fd @ map AddOutput (leaves out))"
    by (simp add: define_fusion_def and_then_def register_outputs_def tree_flatten_def)
  with assms(1) snd_submit[of be args "spec_of out" "fd @ map AddOutput (leaves out)"]
  show "snd (execute cuda_is_available getnvFuserDtype be gm args ''nvfuser'' kwargs)
        = fd @ map AddOutput (leaves out) @ [Execute (filter is_Tensor args), Exit]"
    by (cases "submit be args (spec_of out) (fd @ map AddOutput (leaves out))")
       (simp add: execute_def with_FusionDefinition_def and_then_def)
next
  fix pre x post e
  assume h: "leaves out = pre @ x # post
            \<and> list_all (\<lambda>x. accepts_output be x = None) pre
            \<and> accepts_output be x = Some e"
  then have "map_fd (add_output be) (leaves out) fd = (Inl e, fd @ map AddOutput pre)"
    using add_outputs_refused[of be pre x e post fd] by simp
  with assms have "define_fusion getnvFuserDtype be gm args kwargs [Enter]
                   = (Inl e, fd @ map AddOutput pre)"
    by (simp add: define_fusion_def and_then_def register_outputs_def tree_flatten_def)
  with assms(1)
  show "execute cuda_is_available getnvFuserDtype be gm args ''nvfuser'' kwargs
        = (Inl e, fd @ map AddOutput pre @ [Exit])"
    by (simp add: execute_def with_FusionDefinition_def and_then_def)
  from lower_graph_log[OF assms(2)] obtain ev where
    "fd = Enter # ev" "list_all definition_event ev" by blast
  with definition_event_not_Execute[of ev]
  show "list_all (\<lambda>e. \<not> is_Execute e) (fd @ map AddOutput pre @ [Exit])"
    by (auto simp: list_all_iff)
qed

theorem outputs_registered_unchecked_witness:
  "True
   \<and> lower_graph getnv_all graph_scalar_out
        [Leaf (Tensor tensor_a), Leaf (Number (PyFloat 2))] [] [Enter]
     = (Inr (Node TupleK [Leaf (TensorView 4), Leaf (Number (PyFloat 2))]),
        [Enter,
         DefineTensor [2, 3] [3, 1] (nvfuser_DataType ''float32''),
         AddInput (TensorView 1),
         DefineConstant (PyFloat 2),
         Lower ''mul'' [Leaf (TensorView 1), Leaf (Scalar 3)] []])
   \<and> execute True getnv_all one_buffer graph_scalar_out
        [Leaf (Tensor tensor_a), Leaf (Number (PyFloat 2))] ''nvfuser'' []
     = (Inl (TypeError ''add_output(): incompatible function arguments''),
        [Enter,
         DefineTensor [2, 3] [3, 1] (nvfuser_DataType ''float32''),
         AddInput (TensorView 1),
         DefineConstant (PyFloat 2),
         Lower ''mul'' [Leaf (TensorView 1), Leaf (Scalar 3)] [],
         AddOutput (TensorView 4),
         Exit])"
proof -
  have h2: "lower_graph getnv_all graph_scalar_out
        [Leaf (Tensor tensor_a), Leaf (Number (PyFloat 2))] [] [Enter]
     = (Inr (Node TupleK [Leaf (TensorView 4), Leaf (Number (PyFloat 2))]),
        [Enter,
         DefineTensor [2, 3] [3, 1] (nvfuser_DataType ''float32''),
         AddInput (TensorView 1),
         DefineConstant (PyFloat 2),
         Lower ''mul'' [Leaf (TensorView 1), Leaf (Scalar 3)] []])"
    by (simp add: executor_defs example_defs)
  have l: "leaves (Node TupleK [Leaf (TensorView 4), Leaf (Number (PyFloat 2))])
           = [TensorView 4] @ Number (PyFloat 2) # []
         \<and> list_all (\<lambda>x. accepts_output one_buffer x = None) [TensorView 4]
         \<and> accepts_output one_buffer (Number (PyFloat 2))
           = Some (TypeError ''add_output(): incompatible function arguments'')"
    by (simp add: one_buffer_def)
  from outputs_registered_unchecked[OF TrueI h2, of one_buffer] l
  have "execute True getnv_all one_buffer graph_scalar_out
        [Leaf (Tensor tensor_a), Leaf (Number (PyFloat 2))] ''nvfuser'' []
     = (Inl (TypeError ''add_output(): incompatible function arguments''),
        [Enter,
         DefineTensor [2, 3] [3, 1] (nvfuser_DataType ''float32''),
         AddInput (TensorView 1),
         DefineConstant (PyFloat 2),
         Lower ''mul'' [Leaf (TensorView 1), Leaf (Scalar 3)] []]
        @ map AddOutput [TensorView 4] @ [Exit])"
    by blast
  with h2 show ?thesis by simp
qed

text \<open>
  Claim C8 as stated fails twice. In \<open>graph_numel\<close> all nodes are lowered and the
  output is the scalar handle returned by \<^verbatim>\<open>numel\<close>, a leaf that is not a tensor: it is
  registered as an output and the fusion is submitted. In \<open>graph_scalar_out\<close> the
  second output leaf is the number \<open>2.0\<close>: the execution fails before the submission,
  but with the \<open>TypeError\<close> of the backend's \<^verbatim>\<open>add_output\<close>, after the tensor leaf has
  been registered; the executor raises nothing of its own.
\<close>

theorem non_tensor_output_counterexample:
  "execute True getnv_all one_buffer graph_numel
     [Leaf (Tensor tensor_a), Leaf (Number (PyFloat 2))] ''nvfuser'' []
   = (Inr (Leaf (Tensor tensor_a)),
      [Enter,
       DefineTensor [2, 3] [3, 1] (nvfuser_DataType ''float32''),
       AddInput (TensorView 1),
       Lower ''numel'' [Leaf (TensorView 1)] [],
       AddOutput (Scalar 3),
       Execute [Leaf (Tensor tensor_a)],
       Exit])
   \<and> execute True getnv_all one_buffer graph_scalar_out
       [Leaf (Tensor tensor_a), Leaf (Number (PyFloat 2))] ''nvfuser'' []
     = (Inl (TypeError ''add_output(): incompatible function arguments''),
        [Enter,
         DefineTensor [2, 3] [3, 1] (nvfuser_DataType ''float32''),
         AddInput (TensorView 1),
         DefineConstant (PyFloat 2),
         Lower ''mul'' [Leaf (TensorView 1), Leaf (Scalar 3)] [],
         AddOutput (TensorView 4),
         Exit])"
  by (simp add: executor_defs example_defs)

section \<open>Nodes without a lowering rule\<close>












section \<open>Scalars and inputs\<close>

lemma constants_translated:
  "\<exists>args' ev. map_fd to_nvfuser_constant args fd = (Inr args', fd @ ev)
      \<and> length args' = length args
      \<and> (\<forall>i<length args. \<forall>n. args ! i = Leaf (Number n) \<longrightarrow>
            (\<exists>h<length (fd @ ev). args' ! i = Leaf (Scalar h) \<and> (fd @ ev) ! h = DefineConstant n))"
proof (induction args arbitrary: fd)
  case Nil
  show ?case by simp
next
  case (Cons x xs)
  obtain y e1 where x: "to_nvfuser_constant x fd = (Inr y, fd @ e1)"
    and y: "\<And>n. x = Leaf (Number n) \<Longrightarrow> y = Leaf (Scalar (length fd)) \<and> e1 = [DefineConstant n]"
    by (cases "(x, fd)" rule: to_nvfuser_constant.cases) (auto simp: define_constant_def)
  from Cons.IH[of "fd @ e1"] obtain ys ev where
    m: "map_fd to_nvfuser_constant xs (fd @ e1) = (Inr ys, (fd @ e1) @ ev)" and
    len: "length ys = length xs" and
    ih: "\<forall>i<length xs. \<forall>n. xs ! i = Leaf (Number n) \<longrightarrow>
           (\<exists>h<length ((fd @ e1) @ ev). ys ! i = Leaf (Scalar h)
              \<and> ((fd @ e1) @ ev) ! h = DefineConstant n)"
    by blast
  have "\<exists>h<length (fd @ e1 @ ev). (y # ys) ! i = Leaf (Scalar h)
          \<and> (fd @ e1 @ ev) ! h = DefineConstant n"
    if i: "i < length (x # xs)" and n: "(x # xs) ! i = Leaf (Number n)" for i n
  proof (cases i)
    case 0
    with n y[of n] show ?thesis by (auto simp: nth_append)
  next
    case (Suc j)
    with i n ih show ?thesis by auto
  qed
  with x m len show ?case
    by (intro exI[of _ "y # ys"] exI[of _ "e1 @ ev"]) simp
qed

lemma registered_inputs_append:
  "registered_inputs (xs @ ys) = registered_inputs xs @ registered_inputs ys"
  by (induction xs rule: registered_inputs.induct) simp_all

lemma registered_inputs_definition:
  "list_all definition_event ev \<Longrightarrow> list_all is_TensorView (registered_inputs ev)"
  by (induction ev rule: registered_inputs.induct) simp_all

text \<open>
  Claim C4, as the code has it. On the fusion path a scalar number among the concrete
  arguments passes through the registration of inputs unchanged and without a call to
  the backend; every value registered by \<^verbatim>\<open>add_input\<close> during a fusion execution is a
  tensor handle; and each time a node receives a scalar number as a positional operand,
  \<^verbatim>\<open>call_function\<close> defines a backend constant for it and hands the handle of that
  constant to the lowering rule, while the keyword operands reach the rule as they are.
\<close>

theorem scalars_are_constants:
  assumes "impl_nvfuser tgt = Callable rule"
  shows "to_nv getnvFuserDtype (Number n) fd = (Inr (Number n), fd)
       \<and> list_all is_TensorView
           (registered_inputs
              (snd (execute True getnvFuserDtype be gm args ''nvfuser'' kwargs)))
       \<and> (\<exists>nv_args fd'.
             call_function tgt pos kw fd
             = (rule fd' nv_args kw, fd' @ [Lower (op_name tgt) nv_args kw])
           \<and> length nv_args = length pos
           \<and> (\<forall>i<length pos. \<forall>c. pos ! i = Leaf (Number c) \<longrightarrow>
                 (\<exists>h<length fd'. nv_args ! i = Leaf (Scalar h) \<and> fd' ! h = DefineConstant c)))"
proof -
  have a: "to_nv getnvFuserDtype (Number n) fd = (Inr (Number n), fd)" by simp
  have b: "list_all is_TensorView
           (registered_inputs
              (snd (execute True getnvFuserDtype be gm args ''nvfuser'' kwargs)))"
  proof -
    from execute_nvfuser_log[OF TrueI, of getnvFuserDtype be gm args kwargs]
    obtain ev where ev: "list_all definition_event ev" and
      "snd (execute True getnvFuserDtype be gm args ''nvfuser'' kwargs)
         = Enter # ev @ [Exit]
       \<or> snd (execute True getnvFuserDtype be gm args ''nvfuser'' kwargs)
         = Enter # ev @ [Execute (filter is_Tensor args), Exit]"
      by (cases "fst (define_fusion getnvFuserDtype be gm args kwargs [Enter])") auto
    with registered_inputs_definition[OF ev] show ?thesis
      by (auto simp: registered_inputs_append)
  qed
  from constants_translated[of pos fd] obtain nv_args ev where
    m: "map_fd to_nvfuser_constant pos fd = (Inr nv_args, fd @ ev)" and
    len: "length nv_args = length pos" and
    tr: "\<forall>i<length pos. \<forall>c. pos ! i = Leaf (Number c) \<longrightarrow>
           (\<exists>h<length (fd @ ev). nv_args ! i = Leaf (Scalar h)
              \<and> (fd @ ev) ! h = DefineConstant c)"
    by blast
  from m assms have
    "call_function tgt pos kw fd
     = (rule (fd @ ev) nv_args kw,
        (fd @ ev) @ [Lower (op_name tgt) nv_args kw])"
    by (simp add: call_function_def)
  with len tr have c: "\<exists>nv_args fd'.
             call_function tgt pos kw fd
             = (rule fd' nv_args kw, fd' @ [Lower (op_name tgt) nv_args kw])
           \<and> length nv_args = length pos
           \<and> (\<forall>i<length pos. \<forall>c. pos ! i = Leaf (Number c) \<longrightarrow>
                 (\<exists>h<length fd'. nv_args ! i = Leaf (Scalar h) \<and> fd' ! h = DefineConstant c))"
    by blast
  from a b c show ?thesis by blast
qed

text \<open>
  The scenario of the specification: \<^verbatim>\<open>g(a, c=2.0) = a * c\<close> called as \<^verbatim>\<open>g(a)\<close> and
  executed by the fusion executor. The only registered input is the tensor; the scalar
  \<open>2.0\<close> is defined as a constant when the multiplication is lowered.
\<close>

theorem scalars_are_constants_witness:
  "impl_nvfuser mul = Callable (\<lambda>fd args kwargs. Inr (Leaf (TensorView (length fd))))
   \<and> to_nv getnv_all (Number (PyFloat 2)) [Enter] = (Inr (Number (PyFloat 2)), [Enter])
   \<and> list_all is_TensorView
       (registered_inputs
          (snd (execute True getnv_all one_buffer graph_g
                  [Leaf (Tensor tensor_a), Leaf (Number (PyFloat 2))] ''nvfuser'' [])))
   \<and> registered_inputs
        (snd (execute True getnv_all one_buffer graph_g
                [Leaf (Tensor tensor_a), Leaf (Number (PyFloat 2))] ''nvfuser'' []))
      = [TensorView 1]
   \<and> DefineConstant (PyFloat 2)
      \<in> set (snd (execute True getnv_all one_buffer graph_g
                    [Leaf (Tensor tensor_a), Leaf (Number (PyFloat 2))] ''nvfuser'' []))"
proof -
  have h: "impl_nvfuser mul = Callable (\<lambda>fd args kwargs. Inr (Leaf (TensorView (length fd))))"
    by (simp add: mul_def)
  from scalars_are_constants[OF h, where getnvFuserDtype = getnv_all and n = "PyFloat 2"
      and fd = "[Enter]" and be = one_buffer and gm = graph_g
      and args = "[Leaf (Tensor tensor_a), Leaf (Number (PyFloat 2))]" and kwargs = "[]"]
  have "to_nv getnv_all (Number (PyFloat 2)) [Enter] = (Inr (Number (PyFloat 2)), [Enter])
      \<and> list_all is_TensorView
       (registered_inputs
          (snd (execute True getnv_all one_buffer graph_g
                  [Leaf (Tensor tensor_a), Leaf (Number (PyFloat 2))] ''nvfuser'' [])))"
    by blast
  with h show ?thesis by (simp add: execute_graph_g)
qed

text \<open>
  Claim C4 as stated fails: in \<open>graph_g_kw\<close> the first and only use of the scalar
  argument \<open>c\<close> is as the keyword operand \<^verbatim>\<open>other\<close> of the multiplication. No constant is
  defined, and the lowering rule receives the number itself.
\<close>

theorem scalar_keyword_operand_counterexample:
  "snd (execute True getnv_all one_buffer graph_g_kw
          [Leaf (Tensor tensor_a), Leaf (Number (PyFloat 2))] ''nvfuser'' [])
   = [Enter,
      DefineTensor [2, 3] [3, 1] (nvfuser_DataType ''float32''),
      AddInput (TensorView 1),
      Lower ''mul'' [Leaf (TensorView 1)] [(''other'', Leaf (Number (PyFloat 2)))],
      AddOutput (TensorView 3),
      Execute [Leaf (Tensor tensor_a)],
      Exit]"
  by (simp add: executor_defs example_defs)

section \<open>Registered inputs and runtime buffers\<close>

text \<open>
  Claim C1 against the code. A tensor inside a list argument is registered as a
  backend input, since \<^verbatim>\<open>tree_map(to_nv, args)\<close> descends into the list, but the buffers
  given to \<^verbatim>\<open>fusion.execute\<close> are the top-level positional arguments that are tensors:
  in the call below one input is registered and the fusion is run with no buffer at
  all.
\<close>

theorem registered_input_not_supplied:
  "registered_inputs
     (snd (execute True getnv_all one_buffer graph_id
             [Node ListK [Leaf (Tensor tensor_a)]] ''nvfuser'' [])) = [TensorView 1]
   \<and> submitted_buffers
       (snd (execute True getnv_all one_buffer graph_id
               [Node ListK [Leaf (Tensor tensor_a)]] ''nvfuser'' [])) = [[]]"
  by (simp add: executor_defs example_defs)

end
